theory Spec2Isabelle
  imports Main
begin

section \<open>Outcomes of calls\<close>

text \<open>
  Every method of the library either returns, throws, or (where a listener keeps
  re-triggering itself) never returns. JavaScript keeps all mutations made before a
  throw, so a call maps a state to an outcome together with the state it leaves.
  The exceptions are the four \<^verbatim>\<open>new Error(...)\<close> sites of the sources, the
  \<^verbatim>\<open>TypeError\<close> of the language, and whatever a callback of the caller throws.
\<close>

datatype exn =
    PerformedOnce          \<comment> \<open>"Mutations can only be performed once"\<close>
  | SignaledOnce           \<comment> \<open>"Mutations can only be signaled once"\<close>
  | SignalBeforePerform    \<comment> \<open>"Mutations may only signal after being performed"\<close>
  | DirtyDispatchAccess    \<comment> \<open>"Watchable values may not be accessed during their dirty dispatch event"\<close>
  | TypeError              \<comment> \<open>a method or property that the receiver does not have\<close>
  | UserError nat          \<comment> \<open>an exception thrown by a callback of the caller\<close>

datatype 'a outcome = Returned 'a | Threw exn | Diverged

section \<open>Mutator (mutator/Mutator.ts)\<close>

text \<open>
  The two callbacks act on the world \<open>'s\<close> outside the mutator; the mutator's own
  mutable fields are \<open>performed\<close>, \<open>signaled\<close> and \<open>passed\<close>. The fields are declared
  without initialiser, so they start \<^verbatim>\<open>undefined\<close>: falsy for the two flags, \<open>None\<close>
  for \<open>passed\<close>. \<open>signalCB\<close> receives \<open>Some pass\<close> from \<open>commit\<close> and the stored
  \<open>passed\<close> (possibly still undefined) from \<open>signal\<close>.
\<close>

record 'i mutator_fields =
  performed :: bool
  signaled :: bool
  passed :: "'i option"

record ('s, 'i, 'r) mutator =
  performCB :: "'s \<Rightarrow> ('r \<times> 'i) outcome \<times> 's"
  signalCB :: "'i option \<Rightarrow> 's \<Rightarrow> unit outcome \<times> 's"

definition new_mutator_fields :: "'i mutator_fields" where
  "new_mutator_fields = \<lparr>performed = False, signaled = False, passed = None\<rparr>"

definition commit ::
  "('s, 'i, 'r) mutator \<Rightarrow> 'i mutator_fields \<times> 's \<Rightarrow> 'r outcome \<times> ('i mutator_fields \<times> 's)" where
  "commit m = (\<lambda>(mf, w).
     if performed mf then (Threw PerformedOnce, (mf, w))
     else if signaled mf then (Threw SignaledOnce, (mf, w))
     else let mf1 = mf\<lparr>performed := True\<rparr> in
       case performCB m w of
         (Threw e, w1) \<Rightarrow> (Threw e, (mf1, w1))
       | (Diverged, w1) \<Rightarrow> (Diverged, (mf1, w1))
       | (Returned (result, pass), w1) \<Rightarrow>
           let mf2 = mf1\<lparr>signaled := True\<rparr> in
           (case signalCB m (Some pass) w1 of
              (Threw e, w2) \<Rightarrow> (Threw e, (mf2, w2))
            | (Diverged, w2) \<Rightarrow> (Diverged, (mf2, w2))
            | (Returned u, w2) \<Rightarrow> (Returned result, (mf2, w2))))"

definition perform ::
  "('s, 'i, 'r) mutator \<Rightarrow> 'i mutator_fields \<times> 's \<Rightarrow> 'r outcome \<times> ('i mutator_fields \<times> 's)" where
  "perform m = (\<lambda>(mf, w).
     if performed mf then (Threw PerformedOnce, (mf, w))
     else let mf1 = mf\<lparr>performed := True\<rparr> in
       case performCB m w of
         (Threw e, w1) \<Rightarrow> (Threw e, (mf1, w1))
       | (Diverged, w1) \<Rightarrow> (Diverged, (mf1, w1))
       | (Returned (result, pass), w1) \<Rightarrow> (Returned result, (mf1\<lparr>passed := Some pass\<rparr>, w1)))"

definition signal ::
  "('s, 'i, 'r) mutator \<Rightarrow> 'i mutator_fields \<times> 's \<Rightarrow> unit outcome \<times> ('i mutator_fields \<times> 's)" where
  "signal m = (\<lambda>(mf, w).
     if \<not> performed mf then (Threw SignalBeforePerform, (mf, w))
     else if signaled mf then (Threw SignaledOnce, (mf, w))
     else let mf1 = mf\<lparr>signaled := True\<rparr> in
       case signalCB m (passed mf) w of
         (Threw e, w1) \<Rightarrow> (Threw e, (mf1, w1))
       | (Diverged, w1) \<Rightarrow> (Diverged, (mf1, w1))
       | (Returned u, w1) \<Rightarrow> (Returned (), (mf1, w1)))"

text \<open>The three "already consumed" errors of the mutator.\<close>

definition consumed_error :: "exn \<Rightarrow> bool" where
  "consumed_error e = (e = PerformedOnce \<or> e = SignaledOnce \<or> e = SignalBeforePerform)"

text \<open>
  A call is \<open>rejected\<close> when it throws one of these errors from its own guard: neither
  callback ran, so the mutator's fields and the world are what they were.
\<close>

definition rejected :: "'a outcome \<times> 'st \<Rightarrow> 'st \<Rightarrow> bool" where
  "rejected r st = (case fst r of Threw e \<Rightarrow> consumed_error e \<and> snd r = st | _ \<Rightarrow> False)"

text \<open>A history of calls on one mutator; each call's outcome is dropped, its state kept.\<close>

datatype mutator_call = Commit | Perform | Signal

fun call_mutator ::
  "('s, 'i, 'r) mutator \<Rightarrow> mutator_call \<Rightarrow> 'i mutator_fields \<times> 's \<Rightarrow> 'i mutator_fields \<times> 's" where
  "call_mutator m Commit st = snd (commit m st)"
| "call_mutator m Perform st = snd (perform m st)"
| "call_mutator m Signal st = snd (signal m st)"

definition calls_from ::
  "('s, 'i, 'r) mutator \<Rightarrow> mutator_call list \<Rightarrow> 'i mutator_fields \<times> 's \<Rightarrow> 'i mutator_fields \<times> 's" where
  "calls_from m calls st = foldl (\<lambda>st c. call_mutator m c st) st calls"





text \<open>A mutator whose perform callback logs \<open>1\<close> and then throws.\<close>

definition failing_mutator :: "(nat list, unit, nat) mutator" where
  "failing_mutator = \<lparr>performCB = (\<lambda>w. (Threw (UserError 0), w @ [1])),
                      signalCB = (\<lambda>p w. (Returned (), w @ [2]))\<rparr>"

section \<open>JavaScript values\<close>

text \<open>
  The values a watchable holds. \<open>Num\<close> stands for the integral numbers, \<open>NaN\<close> for the
  one number that is not. \<open>PlainObj\<close> and \<open>WatchableObj\<close> are the two object literals
  \<^verbatim>\<open>{plain: v}\<close> and \<^verbatim>\<open>{watchable: w}\<close> of Field.ts; the leading number is
  the identity of the object, fresh for every evaluation of the literal.
\<close>

type_synonym oid = nat

datatype jsval =
    Undefined
  | Null
  | Bool bool
  | Num int
  | NaN
  | PlainObj nat jsval
  | WatchableObj nat oid

text \<open>
  \<^verbatim>\<open>a == b\<close>: \<^verbatim>\<open>null\<close> and \<^verbatim>\<open>undefined\<close> equal each other and nothing else,
  a boolean is compared as the number 0 or 1, \<open>NaN\<close> equals nothing, and an object equals
  only itself.
\<close>

fun looseEq :: "jsval \<Rightarrow> jsval \<Rightarrow> bool" where
  "looseEq Undefined b = (b = Undefined \<or> b = Null)"
| "looseEq Null b = (b = Undefined \<or> b = Null)"
| "looseEq (Bool x) (Bool y) = (x = y)"
| "looseEq (Bool x) (Num n) = ((if x then 1 else 0) = n)"
| "looseEq (Bool x) b = False"
| "looseEq (Num n) (Num m) = (n = m)"
| "looseEq (Num n) (Bool y) = (n = (if y then 1 else 0))"
| "looseEq (Num n) b = False"
| "looseEq NaN b = False"
| "looseEq (PlainObj r v) b = (case b of PlainObj r' v' \<Rightarrow> r = r' | WatchableObj r' w \<Rightarrow> r = r' | _ \<Rightarrow> False)"
| "looseEq (WatchableObj r w) b = (case b of PlainObj r' v' \<Rightarrow> r = r' | WatchableObj r' w' \<Rightarrow> r = r' | _ \<Rightarrow> False)"

text \<open>\<^verbatim>\<open>v++\<close> stores \<^verbatim>\<open>ToNumber(v) + 1\<close>.\<close>

fun increment :: "jsval \<Rightarrow> jsval" where
  "increment (Num n) = Num (n + 1)"
| "increment (Bool x) = Num ((if x then 1 else 0) + 1)"
| "increment Null = Num 1"
| "increment v = NaN"

section \<open>IterableWeakSet (utils/IterableWeakSet.ts)\<close>

text \<open>
  The set keeps its entries in insertion order, and a \<^verbatim>\<open>for ... of\<close> over it walks
  the entries by position while the set changes under it: a deleted entry leaves an empty
  slot that the walk skips, an added entry is appended and still reached. Every listener
  is taken to be referenced from elsewhere, so no entry disappears by garbage collection.
\<close>

type_synonym 'l iterable_weak_set = "'l option list"

definition has_ws :: "'l \<Rightarrow> 'l iterable_weak_set \<Rightarrow> bool" where
  "has_ws v ws = (Some v \<in> set ws)"

definition add_ws :: "'l \<Rightarrow> 'l iterable_weak_set \<Rightarrow> 'l iterable_weak_set" where
  "add_ws v ws = (if has_ws v ws then ws else ws @ [Some v])"

definition delete_ws :: "'l \<Rightarrow> 'l iterable_weak_set \<Rightarrow> 'l iterable_weak_set" where
  "delete_ws v ws = map (\<lambda>x. if x = Some v then None else x) ws"

definition size_ws :: "'l iterable_weak_set \<Rightarrow> nat" where
  "size_ws ws = length (filter (\<lambda>x. x \<noteq> None) ws)"

section \<open>The heap of watchables\<close>

text \<open>
  A listener is known by its identity: the \<open>dirtyListener\<close> and \<open>changeListener\<close> of a
  derived value, or a function of the caller. A caller's function is a script of calls
  into the library; each run of it is recorded in the trace.
\<close>

datatype listener = DirtyListener oid | ChangeListener oid | UserListener nat

datatype action =
    DoGet oid              \<comment> \<open>\<^verbatim>\<open>w.get()\<close>\<close>
  | DoSet oid jsval        \<comment> \<open>\<^verbatim>\<open>f.set(v).commit()\<close>\<close>
  | DoSetSource oid oid    \<comment> \<open>\<^verbatim>\<open>f.setSource(w).commit()\<close>\<close>
  | DoOnDirty oid nat      \<comment> \<open>\<^verbatim>\<open>w.onDirty(listener)\<close>\<close>
  | DoOnChange oid nat     \<comment> \<open>\<^verbatim>\<open>w.onChange(listener)\<close>\<close>
  | DoThrow nat            \<comment> \<open>\<^verbatim>\<open>throw e\<close>\<close>

text \<open>
  A compute function of a derived value is pure except for its calls of \<open>watch\<close>: it
  returns, throws, or watches a dependency and goes on with the value read.
  \<open>ReadThrottle\<close> is the one impure read of the sources, \<^verbatim>\<open>!!this.throttle?.signal\<close>
  in the compute function of \<open>Throttled.throttling\<close>.
\<close>

datatype comp =
    Return jsval
  | Fail exn
  | Watch oid "jsval \<Rightarrow> comp"
  | ReadThrottle oid "bool \<Rightarrow> comp"

record listener_manager =
  dirtyListeners :: "listener iterable_weak_set"
  changeListeners :: "listener iterable_weak_set"
  callingDirtyListeners :: bool
  callingChangeListeners :: bool
  dirty :: bool
  signaled :: bool

record dependency =
  watchable :: oid
  depValue :: jsval
  unsubDirty :: bool      \<comment> \<open>whether the unsubscribe function is still stored\<close>
  unsubChange :: bool

record derived_fields =
  compute :: "jsval \<Rightarrow> comp"      \<comment> \<open>the argument is the previous value\<close>
  "value" :: jsval
  dependencies :: "dependency list"
  computationID :: nat
  initialized :: bool

datatype ISignal = DirtySig | ChangeSig

record throttle_fields =
  type :: ISignal
  signal_of :: "ISignal option"
  timeoutID :: nat

record throttled_fields =
  source :: oid
  period :: nat
  throttleEndSignal :: oid
  throttleStartSignal :: oid
  throttle :: "throttle_fields option"
  activeIndicator :: bool

datatype body =
    PlainFieldB jsval "jsval \<Rightarrow> jsval \<Rightarrow> bool"     \<comment> \<open>\<open>value\<close>, \<open>equals\<close>\<close>
  | SignalB jsval                                  \<comment> \<open>\<open>value\<close>\<close>
  | DerivedB derived_fields
  | FieldB derived_fields oid                      \<comment> \<open>a Derived with the inner PlainField \<open>val\<close>\<close>
  | ThrottledB derived_fields throttled_fields     \<comment> \<open>a Derived with the fields of Throttled\<close>

record obj = listener_manager +
  body :: body

record state =
  objs :: "oid \<Rightarrow> obj"
  trace :: "nat list"                     \<comment> \<open>the caller's listeners run so far\<close>
  timers :: "(nat \<times> oid \<times> nat) list"      \<comment> \<open>pending \<^verbatim>\<open>setTimeout\<close>: id, Throttled, delay\<close>
  nextTimer :: nat
  nextObject :: nat                       \<comment> \<open>identity of the next object literal\<close>

type_synonym 'a call = "state \<Rightarrow> 'a outcome \<times> state"

definition this :: "oid \<Rightarrow> state \<Rightarrow> obj" where
  "this i s = objs s i"

definition update :: "oid \<Rightarrow> (obj \<Rightarrow> obj) \<Rightarrow> state \<Rightarrow> state" where
  "update i f s = s\<lparr>objs := (objs s)(i := f (objs s i))\<rparr>"

text \<open>Sequencing of calls: a throw or a divergence ends the sequence.\<close>

definition bind_call :: "'a call \<Rightarrow> ('a \<Rightarrow> 'b call) \<Rightarrow> 'b call" where
  "bind_call m f = (\<lambda>s. case m s of
       (Returned a, s') \<Rightarrow> f a s'
     | (Threw e, s') \<Rightarrow> (Threw e, s')
     | (Diverged, s') \<Rightarrow> (Diverged, s'))"

definition return :: "'a \<Rightarrow> 'a call" where
  "return a = (\<lambda>s. (Returned a, s))"

definition throw :: "exn \<Rightarrow> 'a call" where
  "throw e = (\<lambda>s. (Threw e, s))"

definition modify :: "(state \<Rightarrow> state) \<Rightarrow> unit call" where
  "modify f = (\<lambda>s. (Returned (), f s))"

text \<open>
  The calls whose target is only known at run time, \<^verbatim>\<open>dependency.get()\<close> and
  \<^verbatim>\<open>listener()\<close>, go through \<open>api\<close>. Its \<open>fuel\<close> bounds how deep such calls nest and
  how many entries one walk over a listener set visits; a call that exhausts it has
  \<open>Diverged\<close>.
\<close>

record api =
  fuel :: nat
  get_of :: "oid \<Rightarrow> jsval call"
  invoke :: "listener \<Rightarrow> unit call"

section \<open>ListenerManager (utils/ListenerManager.ts)\<close>

text \<open>
  A new object of any class that extends ListenerManager starts with empty listener sets,
  \<open>dirty = true\<close> and \<open>signaled = false\<close>.
\<close>

definition new_object :: "body \<Rightarrow> obj" where
  "new_object b = \<lparr>dirtyListeners = [], changeListeners = [],
     callingDirtyListeners = False, callingChangeListeners = False,
     dirty = True, signaled = False, body = b\<rparr>"

definition onDirty :: "oid \<Rightarrow> listener \<Rightarrow> state \<Rightarrow> state" where
  "onDirty i l = update i (\<lambda>ob. ob\<lparr>dirtyListeners := add_ws l (dirtyListeners ob)\<rparr>)"

definition onChange :: "oid \<Rightarrow> listener \<Rightarrow> state \<Rightarrow> state" where
  "onChange i l = update i (\<lambda>ob. ob\<lparr>changeListeners := add_ws l (changeListeners ob)\<rparr>)"

text \<open>The functions that \<open>onDirty\<close> and \<open>onChange\<close> return.\<close>

definition removeDirty :: "oid \<Rightarrow> listener \<Rightarrow> state \<Rightarrow> state" where
  "removeDirty i l = update i (\<lambda>ob. ob\<lparr>dirtyListeners := delete_ws l (dirtyListeners ob)\<rparr>)"

definition removeChange :: "oid \<Rightarrow> listener \<Rightarrow> state \<Rightarrow> state" where
  "removeChange i l = update i (\<lambda>ob. ob\<lparr>changeListeners := delete_ws l (changeListeners ob)\<rparr>)"

text \<open>\<^verbatim>\<open>for (const listener of set) listener()\<close>, from position \<open>i\<close> on.\<close>

fun for_listeners ::
  "nat \<Rightarrow> (listener \<Rightarrow> unit call) \<Rightarrow> (state \<Rightarrow> listener iterable_weak_set) \<Rightarrow> nat \<Rightarrow> unit call" where
  "for_listeners 0 run sel i s = (Diverged, s)"
| "for_listeners (Suc n) run sel i s =
     (if length (sel s) \<le> i then (Returned (), s)
      else case sel s ! i of
        None \<Rightarrow> for_listeners n run sel (Suc i) s
      | Some l \<Rightarrow>
          (case run l s of
             (Returned u, s') \<Rightarrow> for_listeners n run sel (Suc i) s'
           | (Threw e, s') \<Rightarrow> (Threw e, s')
           | (Diverged, s') \<Rightarrow> (Diverged, s')))"

definition callDirtyListeners :: "api \<Rightarrow> oid \<Rightarrow> unit call" where
  "callDirtyListeners a i = (\<lambda>s.
     if dirty (this i s) then (Returned (), s)
     else bind_call
       (for_listeners (fuel a) (invoke a) (\<lambda>s. dirtyListeners (this i s)) 0)
       (\<lambda>u. modify (update i (\<lambda>ob. ob\<lparr>callingDirtyListeners := False\<rparr>)))
       (update i (\<lambda>ob. ob\<lparr>dirty := True, signaled := False, callingDirtyListeners := True\<rparr>) s))"

definition callChangeListeners :: "api \<Rightarrow> oid \<Rightarrow> unit call" where
  "callChangeListeners a i = (\<lambda>s.
     if signaled (this i s) then (Returned (), s)
     else bind_call
       (for_listeners (fuel a) (invoke a) (\<lambda>s. changeListeners (this i s)) 0)
       (\<lambda>u. modify (update i (\<lambda>ob. ob\<lparr>callingChangeListeners := False\<rparr>)))
       (update i (\<lambda>ob. ob\<lparr>signaled := True, callingChangeListeners := True\<rparr>) s))"

definition checkNotDispatchingDirty :: "oid \<Rightarrow> unit call" where
  "checkNotDispatchingDirty i = (\<lambda>s.
     if callingDirtyListeners (this i s) then (Threw DirtyDispatchAccess, s)
     else (Returned (), s))"

section \<open>PlainField (PlainField.ts)\<close>

definition new_PlainField :: "jsval \<Rightarrow> (jsval \<Rightarrow> jsval \<Rightarrow> bool) \<Rightarrow> obj" where
  "new_PlainField init equalsCheck = new_object (PlainFieldB init equalsCheck)"

definition PlainField_get :: "oid \<Rightarrow> jsval call" where
  "PlainField_get i = bind_call (checkNotDispatchingDirty i) (\<lambda>u s.
     case body (this i s) of
       PlainFieldB v eq \<Rightarrow> (Returned v, update i (\<lambda>ob. ob\<lparr>dirty := False\<rparr>) s)
     | _ \<Rightarrow> (Threw TypeError, s))"

text \<open>
  \<open>set\<close> only builds the mutator. Its perform callback returns early when \<open>equals\<close>
  holds; its signal callback calls \<open>callChangeListeners\<close> whatever perform did.
  \<open>equals\<close> is assigned in the constructor only, so the assignment of \<open>value\<close> writes
  it back unchanged.
\<close>

definition PlainField_set :: "api \<Rightarrow> oid \<Rightarrow> jsval \<Rightarrow> (state, unit, unit) mutator" where
  "PlainField_set a i v =
     \<lparr>performCB = (\<lambda>s.
        case body (this i s) of
          PlainFieldB cur eq \<Rightarrow>
            if eq cur v then (Returned ((), ()), s)
            else bind_call (callDirtyListeners a i) (\<lambda>u s'.
              (Returned ((), ()), update i (\<lambda>ob. ob\<lparr>body := PlainFieldB v eq\<rparr>) s')) s
        | _ \<Rightarrow> (Threw TypeError, s)),
      signalCB = (\<lambda>p. callChangeListeners a i)\<rparr>"

section \<open>Signal (utils/Signal.ts)\<close>

text \<open>The class declares \<open>value\<close> without an initialiser, so it starts \<^verbatim>\<open>undefined\<close>.\<close>

definition new_Signal :: obj where
  "new_Signal = new_object (SignalB Undefined)"

definition Signal_get :: "oid \<Rightarrow> jsval call" where
  "Signal_get i = bind_call (checkNotDispatchingDirty i) (\<lambda>u s.
     case body (this i s) of
       SignalB v \<Rightarrow> (Returned v, update i (\<lambda>ob. ob\<lparr>dirty := False\<rparr>) s)
     | _ \<Rightarrow> (Threw TypeError, s))"

definition markDirty :: "api \<Rightarrow> oid \<Rightarrow> unit call" where
  "markDirty a i = (\<lambda>s.
     if dirty (this i s) then (Returned (), s)
     else callDirtyListeners a i
       (update i (\<lambda>ob. ob\<lparr>body :=
          (case body ob of SignalB v \<Rightarrow> SignalB (increment v) | b \<Rightarrow> b)\<rparr>) s))"

definition markChanged :: "api \<Rightarrow> oid \<Rightarrow> unit call" where
  "markChanged a i = callChangeListeners a i"

definition Signal_signal :: "api \<Rightarrow> oid \<Rightarrow> unit call" where
  "Signal_signal a i = bind_call (markDirty a i) (\<lambda>u. markChanged a i)"

definition isDirty :: "oid \<Rightarrow> state \<Rightarrow> bool" where
  "isDirty i s = dirty (this i s)"

section \<open>Derived (Derived.ts)\<close>

definition the_derived :: "body \<Rightarrow> derived_fields option" where
  "the_derived b = (case b of
       DerivedB d \<Rightarrow> Some d
     | FieldB d v \<Rightarrow> Some d
     | ThrottledB d t \<Rightarrow> Some d
     | _ \<Rightarrow> None)"

definition map_derived :: "(derived_fields \<Rightarrow> derived_fields) \<Rightarrow> obj \<Rightarrow> obj" where
  "map_derived f ob = ob\<lparr>body := (case body ob of
       DerivedB d \<Rightarrow> DerivedB (f d)
     | FieldB d v \<Rightarrow> FieldB (f d) v
     | ThrottledB d t \<Rightarrow> ThrottledB (f d) t
     | b \<Rightarrow> b)\<rparr>"

definition new_derived_fields :: "(jsval \<Rightarrow> comp) \<Rightarrow> derived_fields" where
  "new_derived_fields c = \<lparr>compute = c, value = Undefined, dependencies = [],
     computationID = 0, initialized = False\<rparr>"

definition new_Derived :: "(jsval \<Rightarrow> comp) \<Rightarrow> obj" where
  "new_Derived c = new_object (DerivedB (new_derived_fields c))"

text \<open>The dependencies of \<open>i\<close>; none when \<open>i\<close> is not a derived value.\<close>

definition dependencies_of :: "oid \<Rightarrow> state \<Rightarrow> dependency list" where
  "dependencies_of i s = (case the_derived (body (this i s)) of
       Some d \<Rightarrow> dependencies d | None \<Rightarrow> [])"

definition createDependency :: "oid \<Rightarrow> oid \<Rightarrow> jsval \<Rightarrow> dependency call" where
  "createDependency i w v = (\<lambda>s.
     (Returned \<lparr>watchable = w, depValue = v, unsubDirty = True, unsubChange = True\<rparr>,
      onChange w (ChangeListener i) (onDirty w (DirtyListener i) s)))"

text \<open>\<^verbatim>\<open>this.dependencies.map(({watchable, value}) => this.createDependency(watchable, value))\<close>\<close>

fun createDependencies :: "oid \<Rightarrow> dependency list \<Rightarrow> dependency list call" where
  "createDependencies i [] = return []"
| "createDependencies i (d # ds) =
     bind_call (createDependency i (watchable d) (depValue d)) (\<lambda>d'.
     bind_call (createDependencies i ds) (\<lambda>ds'. return (d' # ds')))"

text \<open>The loop of \<open>requiresRecompute\<close>: the first dependency whose value differs ends it.\<close>

fun dependencyChanged :: "api \<Rightarrow> dependency list \<Rightarrow> bool call" where
  "dependencyChanged a [] = return False"
| "dependencyChanged a (d # ds) =
     bind_call (get_of a (watchable d)) (\<lambda>v.
       if \<not> looseEq v (depValue d) then return True else dependencyChanged a ds)"

definition requiresRecompute :: "api \<Rightarrow> oid \<Rightarrow> bool call" where
  "requiresRecompute a i = (\<lambda>s.
     case the_derived (body (this i s)) of
       None \<Rightarrow> (Threw TypeError, s)
     | Some d \<Rightarrow>
         if \<not> initialized d then (Returned True, s)
         else dependencyChanged a (dependencies d) s)"

text \<open>\<^verbatim>\<open>for (const {unsubChange} of this.dependencies) unsubChange?.()\<close>\<close>

fun callUnsubChange :: "oid \<Rightarrow> dependency list \<Rightarrow> state \<Rightarrow> state" where
  "callUnsubChange i [] s = s"
| "callUnsubChange i (d # ds) s =
     callUnsubChange i ds
       (if unsubChange d then removeChange (watchable d) (ChangeListener i) s else s)"

fun callUnsubDirty :: "oid \<Rightarrow> dependency list \<Rightarrow> state \<Rightarrow> state" where
  "callUnsubDirty i [] s = s"
| "callUnsubDirty i (d # ds) s =
     callUnsubDirty i ds
       (if unsubDirty d then removeDirty (watchable d) (DirtyListener i) s else s)"

text \<open>
  The compute function run with the \<open>watch\<close> of \<open>updateValueIfNecessary\<close>:
  \<open>cid\<close> is the \<open>computationID\<close> of this computation, \<open>found\<close> the local set
  \<open>foundDependencies\<close>. The \<^verbatim>\<open>catch\<close> of \<open>watch\<close> logs and rethrows.
\<close>

definition throttled_pending :: "oid \<Rightarrow> state \<Rightarrow> bool" where
  "throttled_pending t s = (case body (this t s) of
       ThrottledB d tf \<Rightarrow> (case throttle tf of Some th \<Rightarrow> signal_of th \<noteq> None | None \<Rightarrow> False)
     | _ \<Rightarrow> False)"

primrec run_compute :: "comp \<Rightarrow> api \<Rightarrow> oid \<Rightarrow> nat \<Rightarrow> oid list \<Rightarrow> jsval call" where
  "run_compute (Return v) a i cid found = return v"
| "run_compute (Fail e) a i cid found = throw e"
| "run_compute (Watch w k) a i cid found =
     bind_call (get_of a w) (\<lambda>v s.
       let outdated = (case the_derived (body (this i s)) of
                         Some d \<Rightarrow> cid \<noteq> computationID d | None \<Rightarrow> True);
           alreadyRegistered = (w \<in> set found)
       in if outdated then run_compute (k v) a i cid found s
          else if alreadyRegistered then run_compute (k v) a i cid found s
          else bind_call (createDependency i w v) (\<lambda>dep.
               bind_call (modify (update i (map_derived
                            (\<lambda>d. d\<lparr>dependencies := dependencies d @ [dep]\<rparr>))))
                 (\<lambda>u. run_compute (k v) a i cid (w # found))) s)"
| "run_compute (ReadThrottle t k) a i cid found =
     (\<lambda>s. run_compute (k (throttled_pending t s)) a i cid found s)"

definition updateValueIfNecessary :: "api \<Rightarrow> oid \<Rightarrow> unit call" where
  "updateValueIfNecessary a i = (\<lambda>s.
     if \<not> dirty (this i s) then (Returned (), s)
     else bind_call (requiresRecompute a i) (\<lambda>requires.
       if \<not> requires then
         (\<lambda>s. bind_call (createDependencies i (dependencies_of i s)) (\<lambda>deps.
                modify (update i (map_derived (\<lambda>d. d\<lparr>dependencies := deps\<rparr>)))) s)
       else
         (\<lambda>s. case the_derived (body (this i s)) of
            None \<Rightarrow> (Threw TypeError, s)
          | Some d0 \<Rightarrow>
              let cid = computationID d0 + 1;
                  s1 = update i (map_derived (\<lambda>d. d\<lparr>computationID := cid\<rparr>)) s;
                  s2 = callUnsubChange i (dependencies_of i s1) s1;
                  s3 = update i (map_derived (\<lambda>d. d\<lparr>dependencies := []\<rparr>)) s2
              in bind_call (run_compute (compute d0 (value d0)) a i cid []) (\<lambda>v.
                   modify (update i (map_derived (\<lambda>d. d\<lparr>value := v, initialized := True\<rparr>))))
                   s3))
       (update i (\<lambda>ob. ob\<lparr>dirty := False\<rparr>) s))"

definition Derived_get :: "api \<Rightarrow> oid \<Rightarrow> jsval call" where
  "Derived_get a i =
     bind_call (checkNotDispatchingDirty i) (\<lambda>u.
     bind_call (updateValueIfNecessary a i) (\<lambda>u s.
       case the_derived (body (this i s)) of
         Some d \<Rightarrow> (Returned (value d), s)
       | None \<Rightarrow> (Threw TypeError, s)))"

definition clearUnsubDirty :: "derived_fields \<Rightarrow> derived_fields" where
  "clearUnsubDirty d = d\<lparr>dependencies := map (\<lambda>dep. dep\<lparr>unsubDirty := False\<rparr>) (dependencies d)\<rparr>"

definition clearUnsubChange :: "derived_fields \<Rightarrow> derived_fields" where
  "clearUnsubChange d = d\<lparr>dependencies := map (\<lambda>dep. dep\<lparr>unsubChange := False\<rparr>) (dependencies d)\<rparr>"

definition unsubDirtyDependencies :: "oid \<Rightarrow> state \<Rightarrow> state" where
  "unsubDirtyDependencies i s =
     (if dirty (this i s) then s
      else update i (map_derived clearUnsubDirty) (callUnsubDirty i (dependencies_of i s) s))"

definition unsubChangeDependencies :: "oid \<Rightarrow> state \<Rightarrow> state" where
  "unsubChangeDependencies i s =
     (if signaled (this i s) then s
      else update i (map_derived clearUnsubChange) (callUnsubChange i (dependencies_of i s) s))"

definition Derived_whenDirty :: "api \<Rightarrow> oid \<Rightarrow> unit call" where
  "Derived_whenDirty a i =
     bind_call (modify (unsubDirtyDependencies i)) (\<lambda>u. callDirtyListeners a i)"

definition Derived_whenChange :: "api \<Rightarrow> oid \<Rightarrow> unit call" where
  "Derived_whenChange a i =
     bind_call (modify (\<lambda>s. if dirty (this i s) then unsubChangeDependencies i s else s))
       (\<lambda>u. callChangeListeners a i)"

section \<open>Field (Field.ts)\<close>

definition watchable_of :: "jsval \<Rightarrow> oid option" where
  "watchable_of v = (case v of WatchableObj r w \<Rightarrow> Some w | _ \<Rightarrow> None)"

definition has_plain :: "jsval \<Rightarrow> bool" where
  "has_plain v = (case v of PlainObj r x \<Rightarrow> True | _ \<Rightarrow> False)"

definition plain_of :: "jsval \<Rightarrow> jsval" where
  "plain_of v = (case v of PlainObj r x \<Rightarrow> x | _ \<Rightarrow> Undefined)"

text \<open>
  The equality given to the inner PlainField:
  \<^verbatim>\<open>(oldVal.watchable && oldVal.watchable == newVal.watchable) ||
  ("plain" in oldVal && "plain" in newVal && equalsCheck(oldVal.plain, newVal.plain))\<close>.
\<close>

definition Field_equals :: "(jsval \<Rightarrow> jsval \<Rightarrow> bool) \<Rightarrow> jsval \<Rightarrow> jsval \<Rightarrow> bool" where
  "Field_equals equalsCheck oldVal newVal =
     ((watchable_of oldVal \<noteq> None \<and> watchable_of oldVal = watchable_of newVal) \<or>
      (has_plain oldVal \<and> has_plain newVal \<and> equalsCheck (plain_of oldVal) (plain_of newVal)))"

definition Field_compute :: "oid \<Rightarrow> jsval \<Rightarrow> comp" where
  "Field_compute val = (\<lambda>previous. Watch val (\<lambda>v.
     case v of
       WatchableObj r w \<Rightarrow> Watch w Return
     | PlainObj r x \<Rightarrow> Return x
     | _ \<Rightarrow> Fail TypeError))"

text \<open>The two objects a Field consists of: itself, and its inner PlainField at \<open>val\<close>.\<close>

definition new_Field :: "oid \<Rightarrow> obj" where
  "new_Field val = new_object (FieldB (new_derived_fields (Field_compute val)) val)"

definition new_Field_val :: "jsval \<Rightarrow> (jsval \<Rightarrow> jsval \<Rightarrow> bool) \<Rightarrow> obj" where
  "new_Field_val init equalsCheck = new_PlainField init (Field_equals equalsCheck)"

text \<open>\<open>set\<close> and \<open>setSource\<close> evaluate an object literal and hand it to the inner field.\<close>

definition Field_set :: "api \<Rightarrow> oid \<Rightarrow> jsval \<Rightarrow> state \<Rightarrow> (state, unit, unit) mutator \<times> state" where
  "Field_set a val v s =
     (PlainField_set a val (PlainObj (nextObject s) v), s\<lparr>nextObject := nextObject s + 1\<rparr>)"

definition Field_setSource :: "api \<Rightarrow> oid \<Rightarrow> oid \<Rightarrow> state \<Rightarrow> (state, unit, unit) mutator \<times> state" where
  "Field_setSource a val w s =
     (PlainField_set a val (WatchableObj (nextObject s) w), s\<lparr>nextObject := nextObject s + 1\<rparr>)"

section \<open>Throttled (Throttled.ts)\<close>

definition the_throttled :: "body \<Rightarrow> throttled_fields option" where
  "the_throttled b = (case b of ThrottledB d t \<Rightarrow> Some t | _ \<Rightarrow> None)"

definition map_throttled :: "(throttled_fields \<Rightarrow> throttled_fields) \<Rightarrow> obj \<Rightarrow> obj" where
  "map_throttled f ob = ob\<lparr>body := (case body ob of
       ThrottledB d t \<Rightarrow> ThrottledB d (f t)
     | b \<Rightarrow> b)\<rparr>"

definition new_Throttled :: "oid \<Rightarrow> nat \<Rightarrow> oid \<Rightarrow> oid \<Rightarrow> obj" where
  "new_Throttled src p endSignal startSignal =
     new_object (ThrottledB (new_derived_fields (\<lambda>previous. Watch src Return))
       \<lparr>source = src, period = p, throttleEndSignal = endSignal,
        throttleStartSignal = startSignal, throttle = None, activeIndicator = True\<rparr>)"

text \<open>The compute function of \<open>throttling\<close>, for the Throttled \<open>t\<close> with its two signals.\<close>

definition throttling_compute :: "oid \<Rightarrow> oid \<Rightarrow> oid \<Rightarrow> jsval \<Rightarrow> comp" where
  "throttling_compute t startSignal endSignal = (\<lambda>previous. ReadThrottle t (\<lambda>throttled.
     if \<not> throttled then Watch startSignal (\<lambda>v. Return (Bool False))
     else Watch endSignal (\<lambda>v. Return (Bool True))))"

text \<open>\<^verbatim>\<open>setTimeout(this.throttleEnd, this.period)\<close> and \<^verbatim>\<open>clearTimeout(id)\<close>.\<close>

definition setTimeout :: "oid \<Rightarrow> nat \<Rightarrow> state \<Rightarrow> nat \<times> state" where
  "setTimeout i delay s =
     (nextTimer s, s\<lparr>timers := timers s @ [(nextTimer s, i, delay)], nextTimer := nextTimer s + 1\<rparr>)"

definition clearTimeout :: "nat \<Rightarrow> state \<Rightarrow> state" where
  "clearTimeout tid s = s\<lparr>timers := filter (\<lambda>t. fst t \<noteq> tid) (timers s)\<rparr>"

text \<open>\<^verbatim>\<open>this.throttle = {timeoutID: setTimeout(this.throttleEnd, this.period), type: ty}\<close>\<close>

definition startThrottle :: "oid \<Rightarrow> ISignal \<Rightarrow> state \<Rightarrow> state" where
  "startThrottle i ty s = (case the_throttled (body (this i s)) of
       None \<Rightarrow> s
     | Some t \<Rightarrow>
         (case setTimeout i (period t) s of (tid, s') \<Rightarrow>
            update i (map_throttled (\<lambda>t. t\<lparr>throttle :=
              Some \<lparr>type = ty, signal_of = None, timeoutID = tid\<rparr>\<rparr>)) s'))"

definition setThrottleSignal :: "oid \<Rightarrow> ISignal \<Rightarrow> state \<Rightarrow> state" where
  "setThrottleSignal i sg = update i (map_throttled (\<lambda>t. t\<lparr>throttle :=
     map_option (\<lambda>th. th\<lparr>signal_of := Some sg\<rparr>) (throttle t)\<rparr>))"

definition Throttled_whenDirty :: "api \<Rightarrow> oid \<Rightarrow> unit call" where
  "Throttled_whenDirty a i = (\<lambda>s0.
     let s = update i (\<lambda>ob. ob\<lparr>signaled := False\<rparr>) s0 in
     case the_throttled (body (this i s)) of
       None \<Rightarrow> (Threw TypeError, s)
     | Some t \<Rightarrow>
         (case throttle t of
            Some th \<Rightarrow>
              let s1 = unsubDirtyDependencies i s in
              if signal_of th = None then
                markDirty a (throttleStartSignal t) (setThrottleSignal i DirtySig s1)
              else (Returned (), s1)
          | None \<Rightarrow>
              let s1 = (if \<not> activeIndicator t then unsubDirtyDependencies i s else s) in
              callDirtyListeners a i (startThrottle i DirtySig s1)))"

definition Throttled_callChangeListeners :: "api \<Rightarrow> oid \<Rightarrow> unit call" where
  "Throttled_callChangeListeners a i = (\<lambda>s.
     case the_throttled (body (this i s)) of
       None \<Rightarrow> (Threw TypeError, s)
     | Some t \<Rightarrow>
         if activeIndicator t \<and> \<not> isDirty (throttleStartSignal t) s then
           bind_call (get_of a (source t)) (\<lambda>v. callChangeListeners a i) s
         else callChangeListeners a i s)"

definition Throttled_whenChange :: "api \<Rightarrow> oid \<Rightarrow> unit call" where
  "Throttled_whenChange a i = (\<lambda>s.
     if signaled (this i s) then (Returned (), s)
     else case the_throttled (body (this i s)) of
       None \<Rightarrow> (Threw TypeError, s)
     | Some t \<Rightarrow>
         if map_option type (throttle t) = Some ChangeSig then
           markChanged a (throttleStartSignal t)
             (setThrottleSignal i ChangeSig
               (unsubChangeDependencies i (update i (\<lambda>ob. ob\<lparr>signaled := True\<rparr>) s)))
         else
           let s1 = (if \<not> activeIndicator t then unsubChangeDependencies i s else s);
               s2 = (case throttle t of Some th \<Rightarrow> clearTimeout (timeoutID th) s1 | None \<Rightarrow> s1)
           in Throttled_callChangeListeners a i (startThrottle i ChangeSig s2))"

text \<open>The timer callback. The timer that fired is no longer pending.\<close>

definition throttleEnd :: "api \<Rightarrow> oid \<Rightarrow> unit call" where
  "throttleEnd a i = (\<lambda>s.
     case the_throttled (body (this i s)) of
       None \<Rightarrow> (Threw TypeError, s)
     | Some t \<Rightarrow>
         (case throttle t of
            None \<Rightarrow> (Returned (), s)
          | Some th \<Rightarrow>
              (case signal_of th of
                 Some sg \<Rightarrow>
                   bind_call (callDirtyListeners a i) (\<lambda>u.
                   bind_call (markDirty a (throttleEndSignal t)) (\<lambda>u.
                     if sg = ChangeSig then
                       bind_call (Throttled_callChangeListeners a i) (\<lambda>u.
                         markChanged a (throttleEndSignal t))
                     else return ()))
                     (startThrottle i sg s)
               | None \<Rightarrow>
                   (Returned (), update i (map_throttled (\<lambda>t. t\<lparr>throttle := None\<rparr>)) s))))"

definition fireTimer :: "api \<Rightarrow> nat \<Rightarrow> unit call" where
  "fireTimer a tid = (\<lambda>s.
     case filter (\<lambda>t. fst t = tid) (timers s) of
       [] \<Rightarrow> (Returned (), s)
     | (t # ts) \<Rightarrow> throttleEnd a (fst (snd t)) (clearTimeout tid s))"

section \<open>Calls resolved at run time\<close>

definition get :: "api \<Rightarrow> oid \<Rightarrow> jsval call" where
  "get a i = (\<lambda>s. case body (this i s) of
       PlainFieldB v eq \<Rightarrow> PlainField_get i s
     | SignalB v \<Rightarrow> Signal_get i s
     | _ \<Rightarrow> Derived_get a i s)"

definition whenDirty :: "api \<Rightarrow> oid \<Rightarrow> unit call" where
  "whenDirty a i = (\<lambda>s. case body (this i s) of
       DerivedB d \<Rightarrow> Derived_whenDirty a i s
     | FieldB d v \<Rightarrow> Derived_whenDirty a i s
     | ThrottledB d t \<Rightarrow> Throttled_whenDirty a i s
     | _ \<Rightarrow> (Threw TypeError, s))"

definition whenChange :: "api \<Rightarrow> oid \<Rightarrow> unit call" where
  "whenChange a i = (\<lambda>s. case body (this i s) of
       DerivedB d \<Rightarrow> Derived_whenChange a i s
     | FieldB d v \<Rightarrow> Derived_whenChange a i s
     | ThrottledB d t \<Rightarrow> Throttled_whenChange a i s
     | _ \<Rightarrow> (Threw TypeError, s))"

text \<open>Committing a mutator that is dropped afterwards.\<close>

definition commit_new :: "(state, 'i, 'r) mutator \<Rightarrow> 'r call" where
  "commit_new m = (\<lambda>s. case commit m (new_mutator_fields, s) of (r, (mf, s')) \<Rightarrow> (r, s'))"

definition set_commit :: "api \<Rightarrow> oid \<Rightarrow> jsval \<Rightarrow> unit call" where
  "set_commit a i v = (\<lambda>s. case body (this i s) of
       PlainFieldB cur eq \<Rightarrow> commit_new (PlainField_set a i v) s
     | FieldB d val \<Rightarrow> (case Field_set a val v s of (m, s') \<Rightarrow> commit_new m s')
     | _ \<Rightarrow> (Threw TypeError, s))"

definition setSource_commit :: "api \<Rightarrow> oid \<Rightarrow> oid \<Rightarrow> unit call" where
  "setSource_commit a i w = (\<lambda>s. case body (this i s) of
       FieldB d val \<Rightarrow> (case Field_setSource a val w s of (m, s') \<Rightarrow> commit_new m s')
     | _ \<Rightarrow> (Threw TypeError, s))"

fun run_action :: "api \<Rightarrow> action \<Rightarrow> unit call" where
  "run_action a (DoGet i) = bind_call (get a i) (\<lambda>v. return ())"
| "run_action a (DoSet i v) = set_commit a i v"
| "run_action a (DoSetSource i w) = setSource_commit a i w"
| "run_action a (DoOnDirty i n) = modify (onDirty i (UserListener n))"
| "run_action a (DoOnChange i n) = modify (onChange i (UserListener n))"
| "run_action a (DoThrow n) = throw (UserError n)"

fun run_actions :: "api \<Rightarrow> action list \<Rightarrow> unit call" where
  "run_actions a [] = return ()"
| "run_actions a (x # xs) = bind_call (run_action a x) (\<lambda>u. run_actions a xs)"

definition invoke_listener :: "api \<Rightarrow> (nat \<Rightarrow> action list) \<Rightarrow> listener \<Rightarrow> unit call" where
  "invoke_listener a scripts l = (case l of
       DirtyListener i \<Rightarrow> whenDirty a i
     | ChangeListener i \<Rightarrow> whenChange a i
     | UserListener n \<Rightarrow>
         bind_call (modify (\<lambda>s. s\<lparr>trace := trace s @ [n]\<rparr>)) (\<lambda>u. run_actions a (scripts n)))"

text \<open>
  The library with \<open>n\<close> levels of nested run-time calls left; \<open>scripts\<close> gives the
  body of each of the caller's listeners.
\<close>

primrec lib :: "nat \<Rightarrow> (nat \<Rightarrow> action list) \<Rightarrow> api" where
  "lib 0 scripts = \<lparr>fuel = 0, get_of = (\<lambda>i s. (Diverged, s)), invoke = (\<lambda>l s. (Diverged, s))\<rparr>"
| "lib (Suc n) scripts =
     \<lparr>fuel = Suc n, get_of = get (lib n scripts), invoke = invoke_listener (lib n scripts) scripts\<rparr>"

text \<open>A program of the caller: a sequence of calls from outside any listener.\<close>

definition run :: "nat \<Rightarrow> (nat \<Rightarrow> action list) \<Rightarrow> action list \<Rightarrow> unit call" where
  "run n scripts prog = run_actions (lib n scripts) prog"

text \<open>The state in which the given objects have just been constructed.\<close>

definition initial :: "(oid \<Rightarrow> obj) \<Rightarrow> state" where
  "initial os = \<lparr>objs = os, trace = [], timers = [], nextTimer = 0, nextObject = 0\<rparr>"

text \<open>
  The compute function evaluated with every \<open>watch(d)\<close> replaced by \<open>d.get()\<close>.
\<close>

primrec substitute_get :: "comp \<Rightarrow> api \<Rightarrow> jsval call" where
  "substitute_get (Return v) a = return v"
| "substitute_get (Fail e) a = throw e"
| "substitute_get (Watch w k) a = bind_call (get a w) (\<lambda>v. substitute_get (k v) a)"
| "substitute_get (ReadThrottle t k) a = (\<lambda>s. substitute_get (k (throttled_pending t s)) a s)"

section \<open>Programs of the caller\<close>

text \<open>Listeners that do nothing but get recorded.\<close>

definition silent :: "nat \<Rightarrow> action list" where
  "silent n = []"

text \<open>\<^verbatim>\<open>const f = new PlainField(0)\<close>\<close>

definition one_field :: state where
  "one_field = initial (\<lambda>i. new_PlainField (Num 0) looseEq)"

text \<open>
  \<^verbatim>\<open>const f = new PlainField(0);
  const d1 = new Derived(watch => watch(f) === 0 ? undefined : null);
  const d2 = new Derived(watch => watch(d1) === null ? 1 : 0);\<close>
  with \<open>f\<close>, \<open>d1\<close>, \<open>d2\<close> at 0, 1, 2.
\<close>

definition d1_compute :: "jsval \<Rightarrow> comp" where
  "d1_compute = (\<lambda>previous. Watch 0 (\<lambda>v. Return (if v = Num 0 then Undefined else Null)))"

definition d2_compute :: "jsval \<Rightarrow> comp" where
  "d2_compute = (\<lambda>previous. Watch 1 (\<lambda>v. Return (if v = Null then Num 1 else Num 0)))"

definition chain_of_two :: state where
  "chain_of_two = initial ((\<lambda>i. new_PlainField (Num 0) looseEq)
     (1 := new_Derived d1_compute, 2 := new_Derived d2_compute))"

text \<open>\<^verbatim>\<open>d2.get(); f.set(5).commit();\<close>\<close>

definition after_change :: state where
  "after_change = snd (run 3 silent [DoGet 2, DoSet 0 (Num 5)] chain_of_two)"

text \<open>
  \<^verbatim>\<open>f.get(); f.onDirty(l0); f.onChange(l1); f.set(0).commit();\<close> and the same
  followed by \<^verbatim>\<open>f.set(1).commit();\<close>
\<close>

definition equal_set :: "action list" where
  "equal_set = [DoGet 0, DoOnDirty 0 0, DoOnChange 0 1, DoSet 0 (Num 0)]"

definition equal_set_then_set :: "action list" where
  "equal_set_then_set = [DoGet 0, DoOnDirty 0 0, DoOnChange 0 1, DoSet 0 (Num 0), DoSet 0 (Num 1)]"

text \<open>\<^verbatim>\<open>const s = new Signal()\<close>\<close>

definition one_signal :: state where
  "one_signal = initial (\<lambda>i. new_Signal)"






text \<open>
  \<^verbatim>\<open>const f = new Field(0); f.onDirty(l0); f.onChange(l1); f.set(1).commit();\<close>
  with \<open>f\<close> at 0 and its inner PlainField at 1.
\<close>

definition one_Field :: state where
  "one_Field = (initial ((\<lambda>i. new_Field_val (PlainObj 0 (Num 0)) looseEq) (0 := new_Field 1)))
     \<lparr>nextObject := 1\<rparr>"

definition set_unread_Field :: "action list" where
  "set_unread_Field = [DoOnDirty 0 0, DoOnChange 0 1, DoSet 0 (Num 1)]"

text \<open>
  \<^verbatim>\<open>const f = new PlainField(0); const t = new Throttled(f, 50); t.get();\<close>
  with \<open>f\<close> at 0, \<open>t\<close> at 1, its \<open>throttleEndSignal\<close> at 2, its
  \<open>throttleStartSignal\<close> at 3 and its \<open>throttling\<close> at 4.
\<close>

definition one_Throttled :: state where
  "one_Throttled = initial ((\<lambda>i. new_PlainField (Num 0) looseEq)
     (1 := new_Throttled 0 50 2 3, 2 := new_Signal, 3 := new_Signal,
      4 := new_Derived (throttling_compute 1 3 2)))"

definition Throttled_read :: state where
  "Throttled_read = snd (run 3 silent [DoGet 1] one_Throttled)"

text \<open>\<^verbatim>\<open>const f = new PlainField(0); f.onDirty(l0); f.onChange(l1);\<close>\<close>

definition fresh_with_listeners :: state where
  "fresh_with_listeners = snd (run 3 silent [DoOnDirty 0 0, DoOnChange 0 1] one_field)"

section \<open>Dirty dispatch in progress\<close>

text \<open>No watchable is calling its dirty listeners.\<close>

definition no_dirty_dispatch :: "state \<Rightarrow> bool" where
  "no_dirty_dispatch s = (\<forall>j. \<not> callingDirtyListeners (this j s))"

text \<open>A compute function that does not itself throw the error \<open>e\<close>.\<close>

primrec never_throws :: "exn \<Rightarrow> comp \<Rightarrow> bool" where
  "never_throws e (Return v) = True"
| "never_throws e (Fail e') = (e' \<noteq> e)"
| "never_throws e (Watch w k) = (\<forall>v. never_throws e (k v))"
| "never_throws e (ReadThrottle t k) = (\<forall>b. never_throws e (k b))"

definition computes_never_throw :: "exn \<Rightarrow> state \<Rightarrow> bool" where
  "computes_never_throw e s =
     (\<forall>j d p. the_derived (body (this j s)) = Some d \<longrightarrow> never_throws e (compute d p))"

text \<open>
  \<^verbatim>\<open>t.get(); f.set(1).commit(); t.get();\<close> on the Throttled above: an epoch is
  running, nothing is pending, and \<open>t\<close> has been read.
\<close>

definition Throttled_in_epoch :: state where
  "Throttled_in_epoch = snd (run 3 silent [DoGet 1, DoSet 0 (Num 1), DoGet 1] one_Throttled)"

section \<open>Invariants used in the proofs\<close>

text \<open>
  The states in which no dirty dispatch is in progress and no compute function throws the
  error of \<open>checkNotDispatchingDirty\<close> itself; the updates of an object and the calls
  that keep a state so.
\<close>

definition quiet :: "state \<Rightarrow> bool" where
  "quiet s = (no_dirty_dispatch s \<and> computes_never_throw DirtyDispatchAccess s)"

definition harmless :: "(obj \<Rightarrow> obj) \<Rightarrow> bool" where
  "harmless f = (\<forall>ob. callingDirtyListeners (f ob) = callingDirtyListeners ob \<and>
      map_option compute (the_derived (body (f ob))) = map_option compute (the_derived (body ob)))"

definition keeps_quiet :: "'a call \<Rightarrow> bool" where
  "keeps_quiet g = (\<forall>s. quiet s \<longrightarrow> quiet (snd (g s)) \<and> fst (g s) \<noteq> Threw DirtyDispatchAccess)"

section \<open>Mutator: single consumption\<close>


lemma call_mutator_performed:
  "performed (fst (call_mutator m c st)) =
     (performed (fst st) \<or> c = Perform \<or> (c = Commit \<and> \<not> mutator_fields.signaled (fst st)))"
  by (cases st; cases c)
     (auto simp: commit_def perform_def signal_def Let_def split: prod.splits outcome.splits)



lemma calls_from_performed:
  "performed (fst st) \<Longrightarrow> performed (fst (calls_from m cs st))"
  by (induction cs rule: rev_induct) (simp_all add: calls_from_def call_mutator_performed)

lemma commit_performed:
  "performed (fst (snd (commit m st))) = (performed (fst st) \<or> \<not> mutator_fields.signaled (fst st))"
  by (cases st) (auto simp: commit_def Let_def split: prod.splits outcome.splits)


lemma perform_performed: "performed (fst (snd (perform m st)))"
  by (cases st) (auto simp: perform_def Let_def split: prod.splits outcome.splits)

lemma rejected_unchanged: "rejected r st \<Longrightarrow> snd r = st"
  by (auto simp: rejected_def split: outcome.splits)

lemma commit_rejected: "rejected (commit m st) st \<longleftrightarrow> performed (fst st) \<or> mutator_fields.signaled (fst st)"
proof
  assume "rejected (commit m st) st"
  then have "snd (commit m st) = st" by (rule rejected_unchanged)
  then show "performed (fst st) \<or> mutator_fields.signaled (fst st)"
    using commit_performed [of m st] by auto
next
  assume "performed (fst st) \<or> mutator_fields.signaled (fst st)"
  then show "rejected (commit m st) st"
    by (cases st) (auto simp: rejected_def commit_def consumed_error_def)
qed

lemma perform_rejected: "rejected (perform m st) st \<longleftrightarrow> performed (fst st)"
proof
  assume "rejected (perform m st) st"
  then have "snd (perform m st) = st" by (rule rejected_unchanged)
  then show "performed (fst st)"
    using perform_performed [of m st] by auto
next
  assume "performed (fst st)"
  then show "rejected (perform m st) st"
    by (cases st) (auto simp: rejected_def perform_def consumed_error_def)
qed







section \<open>Mutator: a throwing perform callback\<close>

text \<open>
  C10. A perform callback that throws consumes the mutator. \<open>commit\<close> and \<open>perform\<close>
  leave \<open>performed\<close> set and \<open>signaled\<close> clear, the world is the one the perform
  callback left (the signal callback did not run), the callback's exception is the
  outcome, and after any further calls \<open>commit\<close> and \<open>perform\<close> are rejected.
\<close>

theorem mutator_consumed_on_failing_perform:
  "\<not> performed mf \<and> \<not> mutator_fields.signaled mf \<and> performCB m w = (Threw e, w1) \<longrightarrow>
     commit m (mf, w) = (Threw e, (mf\<lparr>performed := True\<rparr>, w1)) \<and>
     perform m (mf, w) = (Threw e, (mf\<lparr>performed := True\<rparr>, w1)) \<and>
     (\<forall>cs. rejected (commit m (calls_from m cs (mf\<lparr>performed := True\<rparr>, w1)))
             (calls_from m cs (mf\<lparr>performed := True\<rparr>, w1)) \<and>
           rejected (perform m (calls_from m cs (mf\<lparr>performed := True\<rparr>, w1)))
             (calls_from m cs (mf\<lparr>performed := True\<rparr>, w1)))"
proof (intro impI, elim conjE)
  assume h: "\<not> performed mf" "\<not> mutator_fields.signaled mf" "performCB m w = (Threw e, w1)"
  have c: "commit m (mf, w) = (Threw e, (mf\<lparr>performed := True\<rparr>, w1))"
    using h by (simp add: commit_def)
  have p: "perform m (mf, w) = (Threw e, (mf\<lparr>performed := True\<rparr>, w1))"
    using h by (simp add: perform_def)
  have "performed (fst (calls_from m cs (mf\<lparr>performed := True\<rparr>, w1)))" for cs
    by (rule calls_from_performed) simp
  then have r: "\<forall>cs. rejected (commit m (calls_from m cs (mf\<lparr>performed := True\<rparr>, w1)))
             (calls_from m cs (mf\<lparr>performed := True\<rparr>, w1)) \<and>
           rejected (perform m (calls_from m cs (mf\<lparr>performed := True\<rparr>, w1)))
             (calls_from m cs (mf\<lparr>performed := True\<rparr>, w1))"
    by (simp add: commit_rejected perform_rejected)
  from c p r show "commit m (mf, w) = (Threw e, (mf\<lparr>performed := True\<rparr>, w1)) \<and>
     perform m (mf, w) = (Threw e, (mf\<lparr>performed := True\<rparr>, w1)) \<and>
     (\<forall>cs. rejected (commit m (calls_from m cs (mf\<lparr>performed := True\<rparr>, w1)))
             (calls_from m cs (mf\<lparr>performed := True\<rparr>, w1)) \<and>
           rejected (perform m (calls_from m cs (mf\<lparr>performed := True\<rparr>, w1)))
             (calls_from m cs (mf\<lparr>performed := True\<rparr>, w1)))"
    by blast
qed

theorem mutator_consumed_on_failing_perform_witness:
  "commit failing_mutator (new_mutator_fields, []) =
     (Threw (UserError 0), (\<lparr>performed = True, mutator_fields.signaled = False, passed = None\<rparr>, [1])) \<and>
   rejected (commit failing_mutator (\<lparr>performed = True, mutator_fields.signaled = False, passed = None\<rparr>, [1]))
     (\<lparr>performed = True, mutator_fields.signaled = False, passed = None\<rparr>, [1])"
  using mutator_consumed_on_failing_perform [of new_mutator_fields failing_mutator "[]"
      "UserError 0" "[1]"]
  by (auto simp: failing_mutator_def new_mutator_fields_def calls_from_def dest: spec [of _ "[]"])


section \<open>Evaluation of concrete programs\<close>

text \<open>
  Concrete programs are run by rewriting with the definitions of the library. The weak
  congruence rules make the simplifier decide a test before it looks at the branches.
\<close>

lemmas library_defs =
  commit_def new_mutator_fields_def has_ws_def add_ws_def delete_ws_def size_ws_def this_def
  update_def bind_call_def return_def throw_def modify_def new_object_def onDirty_def
  onChange_def removeDirty_def removeChange_def callDirtyListeners_def callChangeListeners_def
  checkNotDispatchingDirty_def new_PlainField_def PlainField_get_def PlainField_set_def
  new_Signal_def Signal_get_def markDirty_def markChanged_def Signal_signal_def isDirty_def
  the_derived_def map_derived_def new_derived_fields_def new_Derived_def dependencies_of_def
  createDependency_def requiresRecompute_def throttled_pending_def updateValueIfNecessary_def
  Derived_get_def clearUnsubDirty_def clearUnsubChange_def unsubDirtyDependencies_def
  unsubChangeDependencies_def Derived_whenDirty_def Derived_whenChange_def watchable_of_def
  has_plain_def plain_of_def Field_equals_def Field_compute_def new_Field_def
  new_Field_val_def Field_set_def Field_setSource_def the_throttled_def map_throttled_def
  new_Throttled_def throttling_compute_def setTimeout_def clearTimeout_def startThrottle_def
  setThrottleSignal_def Throttled_whenDirty_def Throttled_callChangeListeners_def
  Throttled_whenChange_def throttleEnd_def fireTimer_def get_def whenDirty_def whenChange_def
  commit_new_def set_commit_def setSource_commit_def invoke_listener_def run_def initial_def

lemmas eval_congs = if_weak_cong outcome.case_cong_weak prod.case_cong_weak option.case_cong_weak
  list.case_cong_weak body.case_cong_weak listener.case_cong_weak jsval.case_cong_weak

section \<open>Derived: transparency\<close>

text \<open>
  C1 (Transparency) fails on the code. \<open>requiresRecompute\<close> compares the value read from
  a dependency with the recorded one by \<^verbatim>\<open>!=\<close>, which holds \<^verbatim>\<open>null\<close> and
  \<^verbatim>\<open>undefined\<close> equal. After \<open>f\<close> changes from 0 to 5, \<open>d1\<close> changes from
  \<^verbatim>\<open>undefined\<close> to \<^verbatim>\<open>null\<close>; \<open>d2.get()\<close> still returns the cached 0, while its
  compute function evaluated on \<open>d1.get()\<close> gives 1.
\<close>

theorem transparency_fails_on_loosely_equal_values:
  "fst (get (lib 3 silent) 0 after_change) = Returned (Num 5) \<and>
   fst (get (lib 3 silent) 1 after_change) = Returned Null \<and>
   fst (get (lib 3 silent) 2 after_change) = Returned (Num 0) \<and>
   fst (substitute_get (d2_compute Undefined) (lib 3 silent) after_change) = Returned (Num 1)"
  by (simp add: library_defs after_change_def chain_of_two_def d1_compute_def d2_compute_def
      silent_def eval_nat_numeral cong: eval_congs)

section \<open>PlainField: setting an equal value\<close>

text \<open>
  C2 (no listener fires when \<open>equals(old, x)\<close> holds) fails on the code. The signal
  callback of \<open>set\<close> calls \<open>callChangeListeners\<close> although perform returned early, and
  \<open>signaled\<close> starts \<open>false\<close>: on a field that was only read, committing \<open>set(0)\<close>
  over the value 0 runs the change listener \<open>l1\<close>.
\<close>

theorem equal_set_fires_change_listener:
  "looseEq (Num 0) (Num 0) \<and>
   fst (run 3 silent equal_set one_field) = Returned () \<and>
   trace (snd (run 3 silent equal_set one_field)) = [1] \<and>
   fst (get (lib 3 silent) 0 (snd (run 3 silent equal_set one_field))) = Returned (Num 0)"
  by (simp add: library_defs equal_set_def one_field_def silent_def eval_nat_numeral
      cong: eval_congs)

section \<open>NoRedundantEvents\<close>

text \<open>
  C3 (at most one dirty and one change notification between two reads) fails on the
  code. After the one \<open>f.get()\<close>, committing \<open>set(0)\<close> and then \<open>set(1)\<close> runs the
  change listener \<open>l1\<close> twice, around the one run of the dirty listener \<open>l0\<close>.
\<close>

theorem two_changes_between_reads:
  "fst (run 3 silent equal_set_then_set one_field) = Returned () \<and>
   trace (snd (run 3 silent equal_set_then_set one_field)) = [1, 0, 1] \<and>
   count_list (trace (snd (run 3 silent equal_set_then_set one_field))) 1 = 2"
  by (simp add: library_defs equal_set_then_set_def one_field_def silent_def eval_nat_numeral
      cong: eval_congs)

section \<open>Signal: the counter\<close>

text \<open>
  C7 (a fresh Signal returns an integer counter that \<open>markDirty\<close> increments by one)
  fails on the code. \<open>value\<close> has no initialiser: the first \<open>get()\<close> returns
  \<^verbatim>\<open>undefined\<close>, and after \<open>markDirty()\<close> the value is \<^verbatim>\<open>undefined + 1\<close>, which is
  \<open>NaN\<close>.
\<close>

theorem fresh_Signal_is_not_a_counter:
  "fst (get (lib 3 silent) 0 one_signal) = Returned Undefined \<and>
   fst (bind_call (get (lib 3 silent) 0) (\<lambda>v.
        bind_call (markDirty (lib 3 silent) 0) (\<lambda>u. get (lib 3 silent) 0)) one_signal) =
     Returned NaN"
  by (simp add: library_defs one_signal_def silent_def eval_nat_numeral cong: eval_congs)

section \<open>PlainField and Field before the first read\<close>

lemma this_update: "this j (update i f s) = (if j = i then f (this i s) else this j s)"
  by (simp add: this_def update_def)

lemma PlainField_perform_unequal:
  "body (this i s) = PlainFieldB cur eq \<Longrightarrow> \<not> eq cur v \<Longrightarrow>
   performCB (PlainField_set a i v) s =
     bind_call (callDirtyListeners a i)
       (\<lambda>u s'. (Returned ((), ()), update i (\<lambda>ob. ob\<lparr>body := PlainFieldB v eq\<rparr>) s')) s"
  by (simp add: PlainField_set_def)

lemma PlainField_perform_equal:
  "body (this i s) = PlainFieldB cur eq \<Longrightarrow> eq cur v \<Longrightarrow>
   performCB (PlainField_set a i v) s = (Returned ((), ()), s)"
  by (simp add: PlainField_set_def)

lemma callDirtyListeners_dirty: "dirty (this i s) \<Longrightarrow> callDirtyListeners a i s = (Returned (), s)"
  by (simp add: callDirtyListeners_def)


text \<open>
  C9 as stated (for a PlainField or a Field) fails for a Field: a Field that was never
  read is not subscribed to its inner PlainField, so committing \<open>set(1)\<close> changes the
  value and runs neither \<open>l0\<close> nor \<open>l1\<close>.
\<close>

theorem unread_Field_notifies_nobody:
  "fst (run 3 silent set_unread_Field one_Field) = Returned () \<and>
   trace (snd (run 3 silent set_unread_Field one_Field)) = [] \<and>
   fst (get (lib 3 silent) 0 (snd (run 3 silent set_unread_Field one_Field))) = Returned (Num 1)"
  by (simp add: library_defs set_unread_Field_def one_Field_def silent_def eval_nat_numeral
      cong: eval_congs)

text \<open>
  C9, amended to a PlainField. In the state a new PlainField is in (\<open>dirty\<close> set,
  \<open>signaled\<close> clear), committing \<open>set(v)\<close> with \<open>v\<close> not equal to the current value
  assigns \<open>v\<close> and then walks the change listeners; that walk is the only one, no dirty
  listener is called.
\<close>

theorem fresh_PlainField_change_without_dirty:
  "body (this i s) = PlainFieldB cur eq \<and> dirty (this i s) \<and> \<not> signaled (this i s) \<and> \<not> eq cur v \<longrightarrow>
   set_commit a i v s =
     bind_call (for_listeners (fuel a) (invoke a) (\<lambda>s. changeListeners (this i s)) 0)
       (\<lambda>u. modify (update i (\<lambda>ob. ob\<lparr>callingChangeListeners := False\<rparr>)))
       (update i (\<lambda>ob. ob\<lparr>signaled := True, callingChangeListeners := True\<rparr>)
          (update i (\<lambda>ob. ob\<lparr>body := PlainFieldB v eq\<rparr>) s))"
proof (intro impI, elim conjE)
  assume b: "body (this i s) = PlainFieldB cur eq" and d: "dirty (this i s)"
    and ns: "\<not> signaled (this i s)" and ne: "\<not> eq cur v"
  let ?s1 = "update i (\<lambda>ob. ob\<lparr>body := PlainFieldB v eq\<rparr>) s"
  have p: "performCB (PlainField_set a i v) s = (Returned ((), ()), ?s1)"
    using b d ne by (simp add: PlainField_perform_unequal callDirtyListeners_dirty bind_call_def)
  have sg: "signalCB (PlainField_set a i v) = (\<lambda>p. callChangeListeners a i)"
    by (simp add: PlainField_set_def)
  have ns1: "\<not> signaled (this i ?s1)"
    using ns by (simp add: this_update)
  show "set_commit a i v s =
     bind_call (for_listeners (fuel a) (invoke a) (\<lambda>s. changeListeners (this i s)) 0)
       (\<lambda>u. modify (update i (\<lambda>ob. ob\<lparr>callingChangeListeners := False\<rparr>)))
       (update i (\<lambda>ob. ob\<lparr>signaled := True, callingChangeListeners := True\<rparr>) ?s1)"
    using b p ns1
    by (auto simp add: set_commit_def commit_new_def commit_def new_mutator_fields_def sg
        callChangeListeners_def Let_def split: prod.splits outcome.splits)
qed

theorem fresh_PlainField_change_without_dirty_witness:
  "body (this 0 fresh_with_listeners) = PlainFieldB (Num 0) looseEq \<and>
   dirty (this 0 fresh_with_listeners) \<and> \<not> signaled (this 0 fresh_with_listeners) \<and>
   \<not> looseEq (Num 0) (Num 1) \<and>
   fst (set_commit (lib 2 silent) 0 (Num 1) fresh_with_listeners) = Returned () \<and>
   trace (snd (set_commit (lib 2 silent) 0 (Num 1) fresh_with_listeners)) = [1]"
proof -
  have h: "body (this 0 fresh_with_listeners) = PlainFieldB (Num 0) looseEq \<and>
      dirty (this 0 fresh_with_listeners) \<and> \<not> signaled (this 0 fresh_with_listeners) \<and>
      \<not> looseEq (Num 0) (Num 1)"
    by (simp add: library_defs fresh_with_listeners_def one_field_def silent_def eval_nat_numeral
        cong: eval_congs)
  have eq: "set_commit (lib 2 silent) 0 (Num 1) fresh_with_listeners =
     bind_call (for_listeners (fuel (lib 2 silent)) (invoke (lib 2 silent))
         (\<lambda>s. changeListeners (this 0 s)) 0)
       (\<lambda>u. modify (update 0 (\<lambda>ob. ob\<lparr>callingChangeListeners := False\<rparr>)))
       (update 0 (\<lambda>ob. ob\<lparr>signaled := True, callingChangeListeners := True\<rparr>)
          (update 0 (\<lambda>ob. ob\<lparr>body := PlainFieldB (Num 1) looseEq\<rparr>) fresh_with_listeners))"
    using fresh_PlainField_change_without_dirty
      [of 0 fresh_with_listeners "Num 0" looseEq "Num 1" "lib 2 silent"] h by blast
  have r: "fst (set_commit (lib 2 silent) 0 (Num 1) fresh_with_listeners) = Returned () \<and>
     trace (snd (set_commit (lib 2 silent) 0 (Num 1) fresh_with_listeners)) = [1]"
    unfolding eq
    by (simp add: library_defs fresh_with_listeners_def one_field_def silent_def eval_nat_numeral
        cong: eval_congs)
  from h r show ?thesis by blast
qed

section \<open>Field: equality of the inner field\<close>

text \<open>
  C6. The equality of the inner PlainField of a Field: two plain states are equal
  exactly when the caller's \<open>equalsCheck\<close> holds of their values, two source states
  exactly when they hold the same watchable, a plain and a source state never. The
  mutators of \<open>set\<close> and \<open>setSource\<close> are the inner field's \<open>set\<close> of a new object;
  when the old and the new state are equal, perform leaves the state as it is (no listener
  called, nothing assigned); when they are not, perform calls \<open>callDirtyListeners\<close> and
  then assigns the new state.
\<close>

theorem Field_inner_equality:
  "Field_equals eq (PlainObj r x) (PlainObj r' y) = eq x y \<and>
   Field_equals eq (WatchableObj r w) (WatchableObj r' w') = (w = w') \<and>
   \<not> Field_equals eq (PlainObj r x) (WatchableObj r' w) \<and>
   \<not> Field_equals eq (WatchableObj r w) (PlainObj r' x) \<and>
   (body (this val s) = PlainFieldB old (Field_equals eq) \<longrightarrow>
      fst (Field_set a val x s) = PlainField_set a val (PlainObj (nextObject s) x) \<and>
      fst (Field_setSource a val w s) = PlainField_set a val (WatchableObj (nextObject s) w) \<and>
      body (this val (snd (Field_set a val x s))) = PlainFieldB old (Field_equals eq) \<and>
      body (this val (snd (Field_setSource a val w s))) = PlainFieldB old (Field_equals eq)) \<and>
   (body (this val s) = PlainFieldB old (Field_equals eq) \<and> Field_equals eq old new \<longrightarrow>
      performCB (PlainField_set a val new) s = (Returned ((), ()), s)) \<and>
   (body (this val s) = PlainFieldB old (Field_equals eq) \<and> \<not> Field_equals eq old new \<longrightarrow>
      performCB (PlainField_set a val new) s =
        bind_call (callDirtyListeners a val)
          (\<lambda>u s'. (Returned ((), ()),
             update val (\<lambda>ob. ob\<lparr>body := PlainFieldB new (Field_equals eq)\<rparr>) s')) s \<and>
      (\<forall>res s'. performCB (PlainField_set a val new) s = (Returned res, s') \<longrightarrow>
         body (this val s') = PlainFieldB new (Field_equals eq)))"
proof -
  have e: "Field_equals eq (PlainObj r x) (PlainObj r' y) = eq x y \<and>
   Field_equals eq (WatchableObj r w) (WatchableObj r' w') = (w = w') \<and>
   \<not> Field_equals eq (PlainObj r x) (WatchableObj r' w) \<and>
   \<not> Field_equals eq (WatchableObj r w) (PlainObj r' x)"
    by (simp add: Field_equals_def watchable_of_def has_plain_def plain_of_def)
  have f: "body (this val s) = PlainFieldB old (Field_equals eq) \<longrightarrow>
      fst (Field_set a val x s) = PlainField_set a val (PlainObj (nextObject s) x) \<and>
      fst (Field_setSource a val w s) = PlainField_set a val (WatchableObj (nextObject s) w) \<and>
      body (this val (snd (Field_set a val x s))) = PlainFieldB old (Field_equals eq) \<and>
      body (this val (snd (Field_setSource a val w s))) = PlainFieldB old (Field_equals eq)"
    by (simp add: Field_set_def Field_setSource_def this_def)
  have n: "body (this val s) = PlainFieldB old (Field_equals eq) \<and> \<not> Field_equals eq old new \<longrightarrow>
      (\<forall>res s'. performCB (PlainField_set a val new) s = (Returned res, s') \<longrightarrow>
         body (this val s') = PlainFieldB new (Field_equals eq))"
    by (auto simp: PlainField_perform_unequal bind_call_def this_update
        split: prod.splits outcome.splits)
  show ?thesis
    using e f n PlainField_perform_equal PlainField_perform_unequal by blast
qed

theorem Field_inner_equality_witness:
  "body (this 1 one_Field) = PlainFieldB (PlainObj 0 (Num 0)) (Field_equals looseEq) \<and>
   Field_equals looseEq (PlainObj 0 (Num 0)) (PlainObj 1 (Num 0)) \<and>
   performCB (PlainField_set (lib 2 silent) 1 (PlainObj 1 (Num 0))) one_Field =
     (Returned ((), ()), one_Field) \<and>
   \<not> Field_equals looseEq (PlainObj 0 (Num 0)) (WatchableObj 1 0) \<and>
   fst (performCB (PlainField_set (lib 2 silent) 1 (WatchableObj 1 0)) one_Field) =
     Returned ((), ()) \<and>
   body (this 1 (snd (performCB (PlainField_set (lib 2 silent) 1 (WatchableObj 1 0)) one_Field))) =
     PlainFieldB (WatchableObj 1 0) (Field_equals looseEq)"
proof -
  have h: "body (this 1 one_Field) = PlainFieldB (PlainObj 0 (Num 0)) (Field_equals looseEq)"
    by (simp add: one_Field_def initial_def this_def new_Field_val_def new_PlainField_def
        new_object_def)
  have d: "dirty (this 1 one_Field)"
    by (simp add: one_Field_def initial_def this_def new_Field_val_def new_PlainField_def
        new_object_def)
  have e: "Field_equals looseEq (PlainObj 0 (Num 0)) (PlainObj 1 (Num 0))"
    by (simp add: Field_equals_def watchable_of_def has_plain_def plain_of_def)
  have n: "\<not> Field_equals looseEq (PlainObj 0 (Num 0)) (WatchableObj 1 0)"
    by (simp add: Field_equals_def watchable_of_def has_plain_def plain_of_def)
  from Field_inner_equality [where val = 1 and s = one_Field and eq = looseEq
      and old = "PlainObj 0 (Num 0)" and new = "PlainObj 1 (Num 0)" and a = "lib 2 silent"] h e
  have p: "performCB (PlainField_set (lib 2 silent) 1 (PlainObj 1 (Num 0))) one_Field =
     (Returned ((), ()), one_Field)"
    by blast
  from Field_inner_equality [where val = 1 and s = one_Field and eq = looseEq
      and old = "PlainObj 0 (Num 0)" and new = "WatchableObj 1 0" and a = "lib 2 silent"] h n
  have q: "performCB (PlainField_set (lib 2 silent) 1 (WatchableObj 1 0)) one_Field =
        bind_call (callDirtyListeners (lib 2 silent) 1)
          (\<lambda>u s'. (Returned ((), ()),
             update 1 (\<lambda>ob. ob\<lparr>body := PlainFieldB (WatchableObj 1 0) (Field_equals looseEq)\<rparr>) s'))
          one_Field"
    by blast
  have r: "fst (performCB (PlainField_set (lib 2 silent) 1 (WatchableObj 1 0)) one_Field) =
       Returned ((), ()) \<and>
     body (this 1 (snd (performCB (PlainField_set (lib 2 silent) 1 (WatchableObj 1 0)) one_Field))) =
       PlainFieldB (WatchableObj 1 0) (Field_equals looseEq)"
    unfolding q using d by (simp add: callDirtyListeners_dirty bind_call_def this_update)
  from h e p n r show ?thesis by blast
qed

section \<open>Reading during a dirty dispatch\<close>





lemma keeps_quiet_state: "(\<And>s. quiet s \<Longrightarrow> keeps_quiet (g s)) \<Longrightarrow> keeps_quiet (\<lambda>s. g s s)"
  by (simp add: keeps_quiet_def)

lemma harmless_lm [simp]:
  "harmless (\<lambda>ob. ob\<lparr>dirty := x\<rparr>)"
  "harmless (\<lambda>ob. ob\<lparr>dirtyListeners := g (dirtyListeners ob)\<rparr>)"
  "harmless (\<lambda>ob. ob\<lparr>changeListeners := g (changeListeners ob)\<rparr>)"
  by (simp_all add: harmless_def)




























section \<open>Throttled: receiving dirty\<close>

lemma the_throttled_SomeD: "the_throttled b = Some t \<Longrightarrow> \<exists>d. b = ThrottledB d t"
  by (auto simp: the_throttled_def split: body.splits)

lemma has_ws_delete: "\<not> has_ws l (delete_ws l ws)"
  by (auto simp: has_ws_def delete_ws_def)

lemma has_ws_delete_mono: "has_ws l (delete_ws l' ws) \<Longrightarrow> has_ws l ws"
  by (auto simp: has_ws_def delete_ws_def split: if_splits)

lemma dirtyListeners_removeDirty:
  "dirtyListeners (this j (removeDirty w l s)) =
     (if j = w then delete_ws l (dirtyListeners (this w s)) else dirtyListeners (this j s))"
  by (simp add: removeDirty_def this_update)

lemma body_removeDirty: "body (this j (removeDirty w l s)) = body (this j s)"
  by (simp add: removeDirty_def this_update)

lemma dirty_removeDirty: "dirty (this j (removeDirty w l s)) = dirty (this j s)"
  by (simp add: removeDirty_def this_update)

lemma callUnsubDirty_mono:
  "has_ws l (dirtyListeners (this j (callUnsubDirty i ds s))) \<Longrightarrow> has_ws l (dirtyListeners (this j s))"
proof (induction ds arbitrary: s)
  case Nil
  then show ?case by simp
next
  case (Cons d ds)
  from Cons.prems have "has_ws l (dirtyListeners (this j
      (if unsubDirty d then removeDirty (watchable d) (DirtyListener i) s else s)))"
    by (auto dest: Cons.IH)
  then show ?case
    by (auto simp: dirtyListeners_removeDirty dest: has_ws_delete_mono split: if_splits)
qed

lemma callUnsubDirty_removes:
  "dep \<in> set ds \<Longrightarrow> unsubDirty dep \<Longrightarrow>
   \<not> has_ws (DirtyListener i) (dirtyListeners (this (watchable dep) (callUnsubDirty i ds s)))"
proof (induction ds arbitrary: s)
  case Nil
  then show ?case by simp
next
  case (Cons d ds)
  show ?case
  proof (cases "dep = d")
    case True
    have "\<not> has_ws (DirtyListener i) (dirtyListeners (this (watchable d)
        (removeDirty (watchable d) (DirtyListener i) s)))"
      by (simp add: dirtyListeners_removeDirty has_ws_delete)
    with True Cons.prems show ?thesis
      by (auto dest: callUnsubDirty_mono)
  next
    case False
    with Cons.prems have "dep \<in> set ds" by simp
    then show ?thesis using Cons.IH Cons.prems(2) by simp
  qed
qed

lemma callUnsubDirty_body: "body (this j (callUnsubDirty i ds s)) = body (this j s)"
  by (induction ds arbitrary: s) (simp_all add: body_removeDirty)

lemma callUnsubDirty_dirty: "dirty (this j (callUnsubDirty i ds s)) = dirty (this j s)"
  by (induction ds arbitrary: s) (simp_all add: dirty_removeDirty)

lemma callUnsubDirty_rest:
  "trace (callUnsubDirty i ds s) = trace s \<and> timers (callUnsubDirty i ds s) = timers s \<and>
   nextTimer (callUnsubDirty i ds s) = nextTimer s"
  by (induction ds arbitrary: s) (simp_all add: removeDirty_def update_def)

lemma update_rest [simp]:
  "trace (update i f s) = trace s" "timers (update i f s) = timers s"
  "nextTimer (update i f s) = nextTimer s" "nextObject (update i f s) = nextObject s"
  by (simp_all add: update_def)

lemma this_timers [simp]: "this j (s\<lparr>timers := x, nextTimer := y\<rparr>) = this j s"
  by (simp add: this_def)

lemma map_throttled_lm [simp]:
  "dirtyListeners (map_throttled f ob) = dirtyListeners ob"
  "dirty (map_throttled f ob) = dirty ob"
  "the_derived (body (map_throttled f ob)) = the_derived (body ob)"
  by (auto simp: map_throttled_def the_derived_def split: body.splits)

lemma map_derived_lm [simp]:
  "dirtyListeners (map_derived f ob) = dirtyListeners ob"
  "dirty (map_derived f ob) = dirty ob"
  "the_throttled (body (map_derived f ob)) = the_throttled (body ob)"
  by (auto simp: map_derived_def the_throttled_def split: body.splits)

lemma Throttled_whenDirty_no_epoch:
  assumes t: "the_throttled (body (this i s)) = Some t"
    and n: "throttle t = None" and ai: "activeIndicator t"
  defines "S \<equiv> startThrottle i DirtySig (update i (\<lambda>ob. ob\<lparr>signaled := False\<rparr>) s)"
  shows "Throttled_whenDirty a i s = callDirtyListeners a i S"
    and "map_option throttle (the_throttled (body (this i S))) =
           Some (Some \<lparr>type = DirtySig, signal_of = None, timeoutID = nextTimer s\<rparr>)"
    and "timers S = timers s @ [(nextTimer s, i, period t)]"
    and "dependencies_of i S = dependencies_of i s"
    and "dirtyListeners (this j S) = dirtyListeners (this j s)"
    and "dirty (this i S) = dirty (this i s)"
proof -
  from t obtain d where b: "body (this i s) = ThrottledB d t"
    by (auto dest: the_throttled_SomeD)
  have t0: "the_throttled (body (this i (update i (\<lambda>ob. ob\<lparr>signaled := False\<rparr>) s))) = Some t"
    using t by (simp add: this_update)
  show "Throttled_whenDirty a i s = callDirtyListeners a i S"
    using t0 n ai by (simp add: Throttled_whenDirty_def S_def Let_def)
  have S: "S = update i (map_throttled (\<lambda>t. t\<lparr>throttle :=
              Some \<lparr>type = DirtySig, signal_of = None, timeoutID = nextTimer s\<rparr>\<rparr>))
            ((update i (\<lambda>ob. ob\<lparr>signaled := False\<rparr>) s)
               \<lparr>timers := timers s @ [(nextTimer s, i, period t)], nextTimer := nextTimer s + 1\<rparr>)"
    using t0 by (simp add: S_def startThrottle_def setTimeout_def)
  show "map_option throttle (the_throttled (body (this i S))) =
           Some (Some \<lparr>type = DirtySig, signal_of = None, timeoutID = nextTimer s\<rparr>)"
    using b by (simp add: S this_update map_throttled_def the_throttled_def)
  show "timers S = timers s @ [(nextTimer s, i, period t)]"
    by (simp add: S)
  show "dependencies_of i S = dependencies_of i s"
    by (simp add: S dependencies_of_def this_update)
  show "dirtyListeners (this j S) = dirtyListeners (this j s)"
    by (simp add: S this_update)
  show "dirty (this i S) = dirty (this i s)"
    by (simp add: S this_update)
qed

lemma dependencies_of_removeDirty: "dependencies_of i (removeDirty w l s) = dependencies_of i s"
  by (simp add: dependencies_of_def body_removeDirty)

lemma dependencies_of_callUnsubDirty: "dependencies_of j (callUnsubDirty i ds s) = dependencies_of j s"
  by (simp add: dependencies_of_def callUnsubDirty_body)

lemma Throttled_whenDirty_epoch:
  assumes t: "the_throttled (body (this i s)) = Some t"
    and th: "throttle t = Some th" and np: "signal_of th = None"
  defines "S \<equiv> setThrottleSignal i DirtySig
     (unsubDirtyDependencies i (update i (\<lambda>ob. ob\<lparr>signaled := False\<rparr>) s))"
  shows "Throttled_whenDirty a i s = markDirty a (throttleStartSignal t) S"
    and "map_option throttle (the_throttled (body (this i S))) =
           Some (Some (th\<lparr>signal_of := Some DirtySig\<rparr>))"
    and "timers S = timers s" and "trace S = trace s"
    and "dirty (this i S) = dirty (this i s)"
    and "dirty (this i s) \<Longrightarrow> dependencies_of i S = dependencies_of i s"
    and "dirty (this i s) \<Longrightarrow> dirtyListeners (this j S) = dirtyListeners (this j s)"
    and "\<not> dirty (this i s) \<Longrightarrow>
           dependencies_of i S = map (\<lambda>dep. dep\<lparr>unsubDirty := False\<rparr>) (dependencies_of i s)"
    and "\<not> dirty (this i s) \<Longrightarrow> dep \<in> set (dependencies_of i s) \<Longrightarrow> unsubDirty dep \<Longrightarrow>
           \<not> has_ws (DirtyListener i) (dirtyListeners (this (watchable dep) S))"
proof -
  let ?s0 = "update i (\<lambda>ob. ob\<lparr>signaled := False\<rparr>) s"
  from t obtain d where b: "body (this i s) = ThrottledB d t"
    by (auto dest: the_throttled_SomeD)
  have t0: "the_throttled (body (this i ?s0)) = Some t"
    using t by (simp add: this_update)
  have b0: "body (this i ?s0) = ThrottledB d t" using b by (simp add: this_update)
  have d0: "dirty (this i ?s0) = dirty (this i s)" by (simp add: this_update)
  have deps0: "dependencies_of i ?s0 = dependencies_of i s"
    by (simp add: dependencies_of_def this_update)
  have l0: "dirtyListeners (this j ?s0) = dirtyListeners (this j s)" for j
    by (simp add: this_update)
  show "Throttled_whenDirty a i s = markDirty a (throttleStartSignal t) S"
    using t0 th np by (simp add: Throttled_whenDirty_def S_def Let_def)
  have bu: "body (this i (unsubDirtyDependencies i ?s0)) =
      ThrottledB (if dirty (this i s) then d else clearUnsubDirty d) t"
    using b0 d0
    by (simp add: unsubDirtyDependencies_def this_update callUnsubDirty_body map_derived_def)
  show "map_option throttle (the_throttled (body (this i S))) =
           Some (Some (th\<lparr>signal_of := Some DirtySig\<rparr>))"
    using bu th
    by (simp add: S_def setThrottleSignal_def this_update map_throttled_def the_throttled_def)
  show "timers S = timers s"
    by (simp add: S_def setThrottleSignal_def unsubDirtyDependencies_def callUnsubDirty_rest)
  show "trace S = trace s"
    by (simp add: S_def setThrottleSignal_def unsubDirtyDependencies_def callUnsubDirty_rest)
  show "dirty (this i S) = dirty (this i s)"
    by (simp add: S_def setThrottleSignal_def unsubDirtyDependencies_def this_update
        callUnsubDirty_dirty)
  show "dependencies_of i S = dependencies_of i s" if "dirty (this i s)"
    using that d0 deps0
    by (simp add: S_def setThrottleSignal_def unsubDirtyDependencies_def dependencies_of_def
        this_update)
  show "dirtyListeners (this j S) = dirtyListeners (this j s)" if "dirty (this i s)"
    using that d0 l0
    by (simp add: S_def setThrottleSignal_def unsubDirtyDependencies_def this_update)
  show "dependencies_of i S = map (\<lambda>dep. dep\<lparr>unsubDirty := False\<rparr>) (dependencies_of i s)"
    if "\<not> dirty (this i s)"
    using that bu b
    by (simp add: S_def setThrottleSignal_def dependencies_of_def this_update map_throttled_def
        the_derived_def clearUnsubDirty_def)
  show "\<not> has_ws (DirtyListener i) (dirtyListeners (this (watchable dep) S))"
    if nd: "\<not> dirty (this i s)" and m: "dep \<in> set (dependencies_of i s)" and u: "unsubDirty dep"
  proof -
    have "dirtyListeners (this (watchable dep) S) =
        dirtyListeners (this (watchable dep) (callUnsubDirty i (dependencies_of i s) ?s0))"
      using nd d0 deps0
      by (simp add: S_def setThrottleSignal_def unsubDirtyDependencies_def this_update)
    then show ?thesis
      using callUnsubDirty_removes [OF m u] by simp
  qed
qed

text \<open>
  C8 as stated fails on the code in its first half: with no epoch running, \<open>whenDirty\<close>
  unsubscribes only if \<open>activeIndicator\<close> is false, and \<open>activeIndicator\<close> is always
  true. After \<open>t.get()\<close>, with no epoch, \<open>whenDirty\<close> returns with the dependency's
  unsubscribe function still stored and the dirty listener of \<open>t\<close> still on \<open>f\<close>.
\<close>

theorem Throttled_stays_subscribed_at_epoch_start:
  "map_option throttle (the_throttled (body (this 1 Throttled_read))) = Some None \<and>
   fst (Throttled_whenDirty (lib 3 silent) 1 Throttled_read) = Returned () \<and>
   map unsubDirty (dependencies_of 1 (snd (Throttled_whenDirty (lib 3 silent) 1 Throttled_read))) =
     [True] \<and>
   has_ws (DirtyListener 1)
     (dirtyListeners (this 0 (snd (Throttled_whenDirty (lib 3 silent) 1 Throttled_read))))"
  by (simp add: library_defs Throttled_read_def one_Throttled_def silent_def eval_nat_numeral
      cong: eval_congs)

text \<open>
  C8, amended. When a Throttled receives dirty it first clears its \<open>signaled\<close> flag.
  With no epoch running (and \<open>activeIndicator\<close> true, as it always is) it starts a
  dirty-typed epoch with a timer of \<open>period\<close>, leaves its dependencies and every dirty
  listener set as they are, and calls \<open>callDirtyListeners\<close>, which broadcasts unless it
  is already dirty. With an epoch running and nothing pending it records pending = dirty,
  unsubscribes from the dirty events of its dependencies only if it is not dirty itself,
  and calls \<open>markDirty\<close> of \<open>throttleStartSignal\<close>; it starts no timer, runs no listener
  of its own and leaves its \<open>dirty\<close> flag as it is.
\<close>

theorem Throttled_whenDirty_protocol:
  "the_throttled (body (this i s)) = Some t \<longrightarrow>
   (throttle t = None \<and> activeIndicator t \<longrightarrow>
      (let S = startThrottle i DirtySig (update i (\<lambda>ob. ob\<lparr>signaled := False\<rparr>) s) in
         Throttled_whenDirty a i s = callDirtyListeners a i S \<and>
         map_option throttle (the_throttled (body (this i S))) =
           Some (Some \<lparr>type = DirtySig, signal_of = None, timeoutID = nextTimer s\<rparr>) \<and>
         timers S = timers s @ [(nextTimer s, i, period t)] \<and>
         dependencies_of i S = dependencies_of i s \<and>
         (\<forall>j. dirtyListeners (this j S) = dirtyListeners (this j s)) \<and>
         dirty (this i S) = dirty (this i s))) \<and>
   (\<forall>th. throttle t = Some th \<and> signal_of th = None \<longrightarrow>
      (let S = setThrottleSignal i DirtySig
                 (unsubDirtyDependencies i (update i (\<lambda>ob. ob\<lparr>signaled := False\<rparr>) s)) in
         Throttled_whenDirty a i s = markDirty a (throttleStartSignal t) S \<and>
         map_option throttle (the_throttled (body (this i S))) =
           Some (Some (th\<lparr>signal_of := Some DirtySig\<rparr>)) \<and>
         timers S = timers s \<and> trace S = trace s \<and>
         dirty (this i S) = dirty (this i s) \<and>
         (dirty (this i s) \<longrightarrow>
            dependencies_of i S = dependencies_of i s \<and>
            (\<forall>j. dirtyListeners (this j S) = dirtyListeners (this j s))) \<and>
         (\<not> dirty (this i s) \<longrightarrow>
            dependencies_of i S =
              map (\<lambda>dep. dep\<lparr>unsubDirty := False\<rparr>) (dependencies_of i s) \<and>
            (\<forall>dep \<in> set (dependencies_of i s). unsubDirty dep \<longrightarrow>
               \<not> has_ws (DirtyListener i) (dirtyListeners (this (watchable dep) S))))))"
proof (intro impI conjI allI)
  assume t: "the_throttled (body (this i s)) = Some t"
  {
    assume "throttle t = None \<and> activeIndicator t"
    then have n: "throttle t = None" and ai: "activeIndicator t" by simp_all
    note L = Throttled_whenDirty_no_epoch [OF t n ai]
    show "let S = startThrottle i DirtySig (update i (\<lambda>ob. ob\<lparr>signaled := False\<rparr>) s) in
         Throttled_whenDirty a i s = callDirtyListeners a i S \<and>
         map_option throttle (the_throttled (body (this i S))) =
           Some (Some \<lparr>type = DirtySig, signal_of = None, timeoutID = nextTimer s\<rparr>) \<and>
         timers S = timers s @ [(nextTimer s, i, period t)] \<and>
         dependencies_of i S = dependencies_of i s \<and>
         (\<forall>j. dirtyListeners (this j S) = dirtyListeners (this j s)) \<and>
         dirty (this i S) = dirty (this i s)"
      unfolding Let_def using L by blast
  }
  {
    fix th assume "throttle t = Some th \<and> signal_of th = None"
    then have th: "throttle t = Some th" and np: "signal_of th = None" by simp_all
    note L = Throttled_whenDirty_epoch [OF t th np]
    show "let S = setThrottleSignal i DirtySig
                 (unsubDirtyDependencies i (update i (\<lambda>ob. ob\<lparr>signaled := False\<rparr>) s)) in
         Throttled_whenDirty a i s = markDirty a (throttleStartSignal t) S \<and>
         map_option throttle (the_throttled (body (this i S))) =
           Some (Some (th\<lparr>signal_of := Some DirtySig\<rparr>)) \<and>
         timers S = timers s \<and> trace S = trace s \<and>
         dirty (this i S) = dirty (this i s) \<and>
         (dirty (this i s) \<longrightarrow>
            dependencies_of i S = dependencies_of i s \<and>
            (\<forall>j. dirtyListeners (this j S) = dirtyListeners (this j s))) \<and>
         (\<not> dirty (this i s) \<longrightarrow>
            dependencies_of i S =
              map (\<lambda>dep. dep\<lparr>unsubDirty := False\<rparr>) (dependencies_of i s) \<and>
            (\<forall>dep \<in> set (dependencies_of i s). unsubDirty dep \<longrightarrow>
               \<not> has_ws (DirtyListener i) (dirtyListeners (this (watchable dep) S))))"
      unfolding Let_def using L by blast
  }
qed

theorem Throttled_whenDirty_protocol_witness:
  "the_throttled (body (this 1 Throttled_in_epoch)) =
     Some \<lparr>source = 0, period = 50, throttleEndSignal = 2, throttleStartSignal = 3,
           throttle = Some \<lparr>type = ChangeSig, signal_of = None, timeoutID = 1\<rparr>,
           activeIndicator = True\<rparr> \<and>
   \<not> dirty (this 1 Throttled_in_epoch) \<and>
   dependencies_of 1 Throttled_in_epoch =
     [\<lparr>watchable = 0, depValue = Num 1, unsubDirty = True, unsubChange = True\<rparr>] \<and>
   \<not> has_ws (DirtyListener 1) (dirtyListeners (this 0
       (setThrottleSignal 1 DirtySig
         (unsubDirtyDependencies 1 (update 1 (\<lambda>ob. ob\<lparr>signaled := False\<rparr>) Throttled_in_epoch))))) \<and>
   the_throttled (body (this 1 Throttled_read)) =
     Some \<lparr>source = 0, period = 50, throttleEndSignal = 2, throttleStartSignal = 3,
           throttle = None, activeIndicator = True\<rparr> \<and>
   nextTimer Throttled_read = 0 \<and> timers Throttled_read = [] \<and>
   timers (startThrottle 1 DirtySig (update 1 (\<lambda>ob. ob\<lparr>signaled := False\<rparr>) Throttled_read)) =
     [(0, 1, 50)]"
proof -
  have h: "the_throttled (body (this 1 Throttled_in_epoch)) =
     Some \<lparr>source = 0, period = 50, throttleEndSignal = 2, throttleStartSignal = 3,
           throttle = Some \<lparr>type = ChangeSig, signal_of = None, timeoutID = 1\<rparr>,
           activeIndicator = True\<rparr> \<and>
     \<not> dirty (this 1 Throttled_in_epoch) \<and>
     dependencies_of 1 Throttled_in_epoch =
       [\<lparr>watchable = 0, depValue = Num 1, unsubDirty = True, unsubChange = True\<rparr>]"
    by (simp add: library_defs Throttled_in_epoch_def one_Throttled_def silent_def
        eval_nat_numeral cong: eval_congs)
  have g: "the_throttled (body (this 1 Throttled_read)) =
     Some \<lparr>source = 0, period = 50, throttleEndSignal = 2, throttleStartSignal = 3,
           throttle = None, activeIndicator = True\<rparr> \<and>
     nextTimer Throttled_read = 0 \<and> timers Throttled_read = []"
    by (simp add: library_defs Throttled_read_def one_Throttled_def silent_def
        eval_nat_numeral cong: eval_congs)
  from Throttled_whenDirty_protocol [where i = 1 and s = Throttled_in_epoch
      and t = "\<lparr>source = 0, period = 50, throttleEndSignal = 2, throttleStartSignal = 3,
           throttle = Some \<lparr>type = ChangeSig, signal_of = None, timeoutID = 1\<rparr>,
           activeIndicator = True\<rparr>"] h
  have u: "\<not> has_ws (DirtyListener 1) (dirtyListeners (this 0
       (setThrottleSignal 1 DirtySig
         (unsubDirtyDependencies 1 (update 1 (\<lambda>ob. ob\<lparr>signaled := False\<rparr>) Throttled_in_epoch)))))"
    by (simp add: Let_def)
  from Throttled_whenDirty_protocol [where i = 1 and s = Throttled_read
      and t = "\<lparr>source = 0, period = 50, throttleEndSignal = 2, throttleStartSignal = 3,
           throttle = None, activeIndicator = True\<rparr>"] g
  have e: "timers (startThrottle 1 DirtySig
        (update 1 (\<lambda>ob. ob\<lparr>signaled := False\<rparr>) Throttled_read)) = [(0, 1, 50)]"
    by (simp add: Let_def)
  from h g u e show ?thesis by blast
qed

end
